theory Spec2Isabelle
  imports Main "HOL-Library.Word"
begin

unbundle bit_operations_syntax

section \<open>The MRG32K3A engine of rocRAND (\<open>library/include/rocrand_mrg32k3a.h\<close>)\<close>

text \<open>
  The engine works on \<open>unsigned long long\<close> (64-bit, arithmetic wraps) and
  \<open>unsigned int\<close> (32-bit) values. Both are modelled as machine words, so \<open>+\<close>,
  \<open>-\<close> and \<open>*\<close> wrap, \<open>div\<close> and \<open>mod\<close> are the unsigned C operators \<open>/\<close> and \<open>%\<close>,
  and \<open>drop_bit 32\<close> is \<open>>> 32\<close>.
\<close>

type_synonym u64 = "64 word"
type_synonym u32 = "32 word"

subsection \<open>The constants of the header\<close>

definition ROCRAND_MRG32K3A_POW32 :: u64 where
  "ROCRAND_MRG32K3A_POW32 = 4294967296"

definition ROCRAND_MRG32K3A_M1 :: u64 where
  "ROCRAND_MRG32K3A_M1 = 4294967087"

definition ROCRAND_MRG32K3A_M1C :: u64 where
  "ROCRAND_MRG32K3A_M1C = 209"

definition ROCRAND_MRG32K3A_M2 :: u64 where
  "ROCRAND_MRG32K3A_M2 = 4294944443"

definition ROCRAND_MRG32K3A_M2C :: u64 where
  "ROCRAND_MRG32K3A_M2C = 22853"

definition ROCRAND_MRG32K3A_A12 :: u64 where
  "ROCRAND_MRG32K3A_A12 = 1403580"

definition ROCRAND_MRG32K3A_A13 :: u64 where
  "ROCRAND_MRG32K3A_A13 = 4294967087 - 810728"

definition ROCRAND_MRG32K3A_A13N :: u64 where
  "ROCRAND_MRG32K3A_A13N = 810728"

definition ROCRAND_MRG32K3A_A21 :: u64 where
  "ROCRAND_MRG32K3A_A21 = 527612"

definition ROCRAND_MRG32K3A_A23 :: u64 where
  "ROCRAND_MRG32K3A_A23 = 4294944443 - 1370589"

definition ROCRAND_MRG32K3A_A23N :: u64 where
  "ROCRAND_MRG32K3A_A23N = 1370589"

definition ROCRAND_MRG32K3A_DEFAULT_SEED :: u64 where
  "ROCRAND_MRG32K3A_DEFAULT_SEED = 0x12345"

subsection \<open>The state\<close>

text \<open>
  \<open>struct mrg32k3a_state\<close>. The arrays \<open>g1[3]\<close> and \<open>g2[3]\<close> are lists (read with
  \<open>!\<close>, written with list update). The cached \<open>float\<close> and \<open>double\<close> are kept as
  their bit patterns: no operation of the engine reads or computes with them.
\<close>

record mrg32k3a_state =
  g1 :: "u64 list"
  g2 :: "u64 list"
  boxmuller_float_state :: u32
  boxmuller_double_state :: u32
  boxmuller_float :: "32 word"
  boxmuller_double :: "64 word"

subsection \<open>Fixed-modulus reduction: \<open>mod_m1\<close>, \<open>mod_m2\<close>\<close>

definition mod_m1 :: "u64 \<Rightarrow> u64" where
  "mod_m1 i =
     (let p = (i AND (ROCRAND_MRG32K3A_POW32 - 1)) + drop_bit 32 i * ROCRAND_MRG32K3A_M1C
      in if p \<ge> ROCRAND_MRG32K3A_M1 then p - ROCRAND_MRG32K3A_M1 else p)"

definition mod_m2 :: "u64 \<Rightarrow> u64" where
  "mod_m2 i =
     (let p = (i AND (ROCRAND_MRG32K3A_POW32 - 1)) + drop_bit 32 i * ROCRAND_MRG32K3A_M2C;
          p = (p AND (ROCRAND_MRG32K3A_POW32 - 1)) + drop_bit 32 p * ROCRAND_MRG32K3A_M2C
      in if p \<ge> ROCRAND_MRG32K3A_M2 then p - ROCRAND_MRG32K3A_M2 else p)"

subsection \<open>Multiply-reduce: \<open>mod_mul_m1\<close>, \<open>mod_mul_m2\<close>\<close>

text \<open>
  The locals \<open>hi\<close>, \<open>lo\<close>, \<open>temp1\<close>, \<open>temp2\<close> are \<open>long long\<close>. \<open>i / 131072\<close> is an
  \<open>unsigned int\<close> division, widened afterwards. In \<open>hi * j\<close> and \<open>lo * j\<close> the
  \<open>long long\<close> operand is converted to \<open>unsigned long long\<close>, so the product wraps
  modulo \<open>2^64\<close>. The conversions between the two 64-bit types keep the bits, and
  \<open>lo < 0\<close> is the signed comparison. \<open>temp1 + temp2\<close> is a signed addition of two values
  below \<open>2^57\<close> (a reduction helper returns less than \<open>210 * 2^32\<close>), which cannot
  overflow.
\<close>

definition mod_mul_m1 :: "u32 \<Rightarrow> u64 \<Rightarrow> u64" where
  "mod_mul_m1 i j =
     (let hi = (ucast (i div 131072) :: u64);
          lo = (ucast i :: u64) - hi * 131072;
          temp1 = mod_m1 (hi * j) * 131072;
          temp2 = mod_m1 (lo * j);
          lo = mod_m1 (temp1 + temp2);
          lo = (if lo <s 0 then lo + ROCRAND_MRG32K3A_M1 else lo)
      in lo)"

definition mod_mul_m2 :: "u32 \<Rightarrow> u64 \<Rightarrow> u64" where
  "mod_mul_m2 i j =
     (let hi = (ucast (i div 131072) :: u64);
          lo = (ucast i :: u64) - hi * 131072;
          temp1 = mod_m2 (hi * j) * 131072;
          temp2 = mod_m2 (lo * j);
          lo = mod_m2 (temp1 + temp2);
          lo = (if lo <s 0 then lo + ROCRAND_MRG32K3A_M2 else lo)
      in lo)"

subsection \<open>Matrix operations: \<open>mod_mat_vec\<close>, \<open>mod_mat_sq\<close>\<close>

text \<open>
  Both loops run over the fixed index range \<open>0, 1, 2\<close>. The local arrays \<open>x\<close> are
  written at every index before they are read, so their initial content (zeros
  here) is never observed.
\<close>

definition mod_mat_vec :: "u64 list \<Rightarrow> u64 list \<Rightarrow> u64 \<Rightarrow> u64 list" where
  "mod_mat_vec A s m =
     (let x = fold (\<lambda>i x.
                  fold (\<lambda>j x. x[i := (A ! (i + 3 * j) * s ! j + x ! i) mod m])
                       [0, 1, 2] (x[i := 0]))
                [0, 1, 2] (replicate 3 0)
      in fold (\<lambda>i s. s[i := x ! i]) [0, 1, 2] s)"

definition mod_mat_sq :: "u64 list \<Rightarrow> u64 \<Rightarrow> u64 list" where
  "mod_mat_sq A m =
     (let x = fold (\<lambda>i x.
                  fold (\<lambda>j x.
                     let a = fold (\<lambda>k a. a + (A ! (i + 3 * k) * A ! (k + 3 * j)) mod m)
                                  [0, 1, 2] 0
                     in x[i + 3 * j := a mod m])
                   [0, 1, 2] x)
                [0, 1, 2] (replicate 9 0)
      in fold (\<lambda>i A. A[i + 3 * 0 := x ! (i + 3 * 0),
                         i + 3 * 1 := x ! (i + 3 * 1),
                         i + 3 * 2 := x ! (i + 3 * 2)])
              [0, 1, 2] A)"

subsection \<open>Jump-ahead\<close>

text \<open>
  \<open>discard_state\<close>, \<open>discard_subsequence_impl\<close> and \<open>discard_sequence_impl\<close> contain
  the same \<open>while\<close> loop, each over its own pair of local matrices. The loop is
  written once, as \<open>jump_loop\<close>, and takes the two matrices as the arguments \<open>B1\<close>
  and \<open>B2\<close>; \<open>e\<close> is the count that the loop halves.
\<close>

function jump_loop :: "u64 list \<Rightarrow> u64 list \<Rightarrow> u64 \<Rightarrow> mrg32k3a_state \<Rightarrow> mrg32k3a_state" where
  "jump_loop B1 B2 e s =
     (if e > 0 then
        jump_loop (mod_mat_sq B1 ROCRAND_MRG32K3A_M1) (mod_mat_sq B2 ROCRAND_MRG32K3A_M2)
          (e div 2)
          (if e mod 2 = 1
           then s\<lparr>g1 := mod_mat_vec B1 (g1 s) ROCRAND_MRG32K3A_M1,
                  g2 := mod_mat_vec B2 (g2 s) ROCRAND_MRG32K3A_M2\<rparr>
           else s)
      else s)"
  by pat_completeness auto
termination
  by (relation "measure (\<lambda>(B1, B2, e, s). unat e)")
     (auto simp: unat_div word_greater_zero_iff unat_gt_0)

declare jump_loop.simps [simp del]

definition A1 :: "u64 list" where
  "A1 = [0, 1, 0,
         0, 0, 1,
         ROCRAND_MRG32K3A_A13, ROCRAND_MRG32K3A_A12, 0]"

definition A2 :: "u64 list" where
  "A2 = [0, 1, 0,
         0, 0, 1,
         ROCRAND_MRG32K3A_A23, 0, ROCRAND_MRG32K3A_A21]"

definition A1p67 :: "u64 list" where
  "A1p67 = [82758667, 1871391091, 4127413238,
            3672831523, 69195019, 1871391091,
            3672091415, 3528743235, 69195019]"

definition A2p67 :: "u64 list" where
  "A2p67 = [1511326704, 3759209742, 1610795712,
            4292754251, 1511326704, 3889917532,
            3859662829, 4292754251, 3708466080]"

definition A1p127 :: "u64 list" where
  "A1p127 = [2427906178, 3580155704, 949770784,
             226153695, 1230515664, 3580155704,
             1988835001, 986791581, 1230515664]"

definition A2p127 :: "u64 list" where
  "A2p127 = [1464411153, 277697599, 1610723613,
             32183930, 1464411153, 1022607788,
             2824425944, 32183930, 2093834863]"

definition discard_state :: "u64 \<Rightarrow> mrg32k3a_state \<Rightarrow> mrg32k3a_state" where
  "discard_state offset s = jump_loop A1 A2 offset s"

definition discard_impl :: "u64 \<Rightarrow> mrg32k3a_state \<Rightarrow> mrg32k3a_state" where
  "discard_impl offset s = discard_state offset s"

definition discard_subsequence_impl :: "u64 \<Rightarrow> mrg32k3a_state \<Rightarrow> mrg32k3a_state" where
  "discard_subsequence_impl subsequence s = jump_loop A1p67 A2p67 subsequence s"

definition discard_sequence_impl :: "u64 \<Rightarrow> mrg32k3a_state \<Rightarrow> mrg32k3a_state" where
  "discard_sequence_impl sequence s = jump_loop A1p127 A2p127 sequence s"

definition discard :: "u64 \<Rightarrow> mrg32k3a_state \<Rightarrow> mrg32k3a_state" where
  "discard offset s = discard_impl offset s"

definition discard_subsequence :: "u64 \<Rightarrow> mrg32k3a_state \<Rightarrow> mrg32k3a_state" where
  "discard_subsequence subsequence s = discard_subsequence_impl subsequence s"

definition discard_sequence :: "u64 \<Rightarrow> mrg32k3a_state \<Rightarrow> mrg32k3a_state" where
  "discard_sequence sequence s = discard_sequence_impl sequence s"

subsection \<open>Restart and seeding\<close>

definition restart :: "u64 \<Rightarrow> u64 \<Rightarrow> mrg32k3a_state \<Rightarrow> mrg32k3a_state" where
  "restart subsequence offset s =
     discard_impl offset
       (discard_subsequence_impl subsequence
          (s\<lparr>boxmuller_float_state := 0, boxmuller_double_state := 0\<rparr>))"

text \<open>
  The two \<open>unsigned int\<close> locals of \<open>seed\<close>, in the order \<open>x\<close>, \<open>y\<close>. The XOR is
  done at the width of the \<open>UL\<close> mask and the result is cut to 32 bits by the
  initialisation.
\<close>

definition seed_xy :: "u64 \<Rightarrow> u32 list" where
  "seed_xy seed_value =
     [ucast ((ucast (ucast seed_value :: u32) :: u64) XOR 0x55555555),
      ucast (drop_bit 32 seed_value XOR 0xAAAAAAAA)]"

text \<open>The six assignments to \<open>m_state.g1\<close> and \<open>m_state.g2\<close>, before \<open>restart\<close>.\<close>

definition seed_words :: "u64 \<Rightarrow> mrg32k3a_state \<Rightarrow> mrg32k3a_state" where
  "seed_words seed_value s =
     (let x = seed_xy seed_value ! 0;
          y = seed_xy seed_value ! 1
      in s\<lparr>g1 := (g1 s)[0 := mod_mul_m1 x seed_value,
                        1 := mod_mul_m1 y seed_value,
                        2 := mod_mul_m1 x seed_value],
            g2 := (g2 s)[0 := mod_mul_m2 y seed_value,
                        1 := mod_mul_m2 x seed_value,
                        2 := mod_mul_m2 y seed_value]\<rparr>)"

definition seed :: "u64 \<Rightarrow> u64 \<Rightarrow> u64 \<Rightarrow> mrg32k3a_state \<Rightarrow> mrg32k3a_state" where
  "seed seed_value subsequence offset s =
     (let seed_value = (if seed_value = 0 then ROCRAND_MRG32K3A_DEFAULT_SEED else seed_value)
      in restart subsequence offset (seed_words seed_value s))"

subsection \<open>Single-step generation\<close>

text \<open>\<open>next\<close> returns the output together with the updated state.\<close>

definition "next" :: "mrg32k3a_state \<Rightarrow> u64 \<times> mrg32k3a_state" where
  "next s =
     (let p = ROCRAND_MRG32K3A_A12 * g1 s ! 1
              + ROCRAND_MRG32K3A_A13N * (ROCRAND_MRG32K3A_M1 - g1 s ! 0);
          p = mod_m1 p;
          s = s\<lparr>g1 := (g1 s)[0 := g1 s ! 1]\<rparr>;
          s = s\<lparr>g1 := (g1 s)[1 := g1 s ! 2]\<rparr>;
          s = s\<lparr>g1 := (g1 s)[2 := p]\<rparr>;
          p = ROCRAND_MRG32K3A_A21 * g2 s ! 2
              + ROCRAND_MRG32K3A_A23N * (ROCRAND_MRG32K3A_M2 - g2 s ! 0);
          p = mod_m2 p;
          s = s\<lparr>g2 := (g2 s)[0 := g2 s ! 1]\<rparr>;
          s = s\<lparr>g2 := (g2 s)[1 := g2 s ! 2]\<rparr>;
          s = s\<lparr>g2 := (g2 s)[2 := p]\<rparr>;
          p = g1 s ! 2 - g2 s ! 2;
          p = (if g1 s ! 2 \<le> g2 s ! 2 then p + ROCRAND_MRG32K3A_M1 else p)
      in (p, s))"

subsection \<open>Notions used to state the properties\<close>

text \<open>
  The state-bounds invariant of the data model: both arrays have their three entries,
  every entry of \<open>g1\<close> is below \<open>M1\<close> and every entry of \<open>g2\<close> is below \<open>M2\<close>.
\<close>

definition state_in_bounds :: "mrg32k3a_state \<Rightarrow> bool" where
  "state_in_bounds s \<longleftrightarrow>
     length (g1 s) = 3 \<and> length (g2 s) = 3 \<and>
     list_all (\<lambda>v. v < ROCRAND_MRG32K3A_M1) (g1 s) \<and>
     list_all (\<lambda>v. v < ROCRAND_MRG32K3A_M2) (g2 s)"

text \<open>
  One fold of the reduction helpers, on natural numbers: the low 32 bits plus \<open>c\<close> times
  the high bits.
\<close>

definition fold32 :: "nat \<Rightarrow> nat \<Rightarrow> nat" where
  "fold32 c v = v mod 2 ^ 32 + v div 2 ^ 32 * c"

text \<open>
  A state whose memory is all zeros, for the concrete runs below. The constructors seed
  the member \<open>m_state\<close> in place, so the cached values they leave are those of the
  memory they were given.
\<close>

definition raw_state :: mrg32k3a_state where
  "raw_state = \<lparr>g1 = [0, 0, 0], g2 = [0, 0, 0], boxmuller_float_state = 0,
      boxmuller_double_state = 0, boxmuller_float = 0, boxmuller_double = 0\<rparr>"

text \<open>
  The local matrix of the jump loop after \<open>n\<close> passes through the loop body: every pass
  ends with \<open>mod_mat_sq\<close> on it.
\<close>

fun mod_mat_sq_iter :: "nat \<Rightarrow> u64 list \<Rightarrow> u64 \<Rightarrow> u64 list" where
  "mod_mat_sq_iter 0 A m = A"
| "mod_mat_sq_iter (Suc n) A m = mod_mat_sq_iter n (mod_mat_sq A m) m"

section \<open>Properties\<close>

lemmas mrg_consts =
  ROCRAND_MRG32K3A_POW32_def ROCRAND_MRG32K3A_M1_def ROCRAND_MRG32K3A_M1C_def
  ROCRAND_MRG32K3A_M2_def ROCRAND_MRG32K3A_M2C_def ROCRAND_MRG32K3A_A12_def
  ROCRAND_MRG32K3A_A13_def ROCRAND_MRG32K3A_A13N_def ROCRAND_MRG32K3A_A21_def
  ROCRAND_MRG32K3A_A23_def ROCRAND_MRG32K3A_A23N_def ROCRAND_MRG32K3A_DEFAULT_SEED_def

subsection \<open>The jump loop\<close>

lemma jump_loop_zero: "jump_loop B1 B2 0 s = s"
  by (simp add: jump_loop.simps)

text \<open>The loop only writes \<open>g1\<close> and \<open>g2\<close>: the Box--Muller fields go through it unchanged.\<close>

lemma jump_loop_flags:
  "boxmuller_float_state (jump_loop B1 B2 e s) = boxmuller_float_state s \<and>
   boxmuller_double_state (jump_loop B1 B2 e s) = boxmuller_double_state s \<and>
   boxmuller_float (jump_loop B1 B2 e s) = boxmuller_float s \<and>
   boxmuller_double (jump_loop B1 B2 e s) = boxmuller_double s"
proof (induction B1 B2 e s rule: jump_loop.induct)
  case (1 B1 B2 e s)
  show ?case
  proof (cases "e > 0")
    case True
    with "1.IH" show ?thesis
      by (subst (1 2 3 4) jump_loop.simps) simp
  next
    case False
    then show ?thesis
      by (simp add: jump_loop.simps)
  qed
qed

subsection \<open>Restart, seeding of zero, zero jumps\<close>

text \<open>
  C4. \<open>restart(subsequence, offset)\<close> is \<open>discard(offset)\<close> after
  \<open>discard_subsequence(subsequence)\<close> after clearing both Box--Muller flags, whatever
  the flags were; both flags are 0 in the state it returns. \<open>seed\<close> ends with that
  \<open>restart\<close>, so both flags are 0 after seeding too.
\<close>

theorem restart_semantics:
  "restart subsequence offset s =
     discard offset (discard_subsequence subsequence
       (s\<lparr>boxmuller_float_state := 0, boxmuller_double_state := 0\<rparr>)) \<and>
   boxmuller_float_state (restart subsequence offset s) = 0 \<and>
   boxmuller_double_state (restart subsequence offset s) = 0 \<and>
   seed seed_value subsequence offset s =
     restart subsequence offset
       (seed_words (if seed_value = 0 then ROCRAND_MRG32K3A_DEFAULT_SEED else seed_value) s) \<and>
   boxmuller_float_state (seed seed_value subsequence offset s) = 0 \<and>
   boxmuller_double_state (seed seed_value subsequence offset s) = 0"
  by (simp add: restart_def seed_def discard_def discard_subsequence_def discard_impl_def
        discard_state_def discard_subsequence_impl_def jump_loop_flags Let_def)

text \<open>
  C5. Seeding with 0 gives exactly the state that seeding with \<open>0x12345\<close> gives, for
  every subsequence, offset and previous state: zero is replaced, never rejected.
\<close>

theorem seed_zero_is_default:
  "seed 0 subsequence offset s = seed 0x12345 subsequence offset s"
  by (simp add: seed_def ROCRAND_MRG32K3A_DEFAULT_SEED_def)

text \<open>
  C6. \<open>discard(0)\<close>, \<open>discard_subsequence(0)\<close> and \<open>discard_sequence(0)\<close> return the
  state they were given: all six recurrence words, both cached values and both flags.
\<close>

theorem zero_jump_identity:
  "discard 0 s = s \<and> discard_subsequence 0 s = s \<and> discard_sequence 0 s = s"
  by (simp add: discard_def discard_impl_def discard_state_def discard_subsequence_def
        discard_subsequence_impl_def discard_sequence_def discard_sequence_impl_def
        jump_loop_zero)

subsection \<open>The reduction helpers on natural numbers\<close>

lemma unat_low32: "unat ((i :: u64) AND (ROCRAND_MRG32K3A_POW32 - 1)) = unat i mod 2 ^ 32"
proof -
  have "(ROCRAND_MRG32K3A_POW32 - 1 :: u64) = mask 32"
    by (simp add: ROCRAND_MRG32K3A_POW32_def mask_eq_exp_minus_1)
  then have "i AND (ROCRAND_MRG32K3A_POW32 - 1) = take_bit 32 i"
    by (simp add: take_bit_eq_mask)
  then show ?thesis
    by (simp add: unsigned_take_bit_eq take_bit_eq_mod unat_mod)
qed

lemma unat_high32: "unat (drop_bit 32 (i :: u64)) = unat i div 2 ^ 32"
  by (simp add: unat_drop_bit_eq drop_bit_eq_div unat_div)

lemma unat_u64_bound: "unat (i :: u64) < 18446744073709551616"
  using unsigned_less [of i, where 'a = nat] by simp

lemma high32_less: "unat (i :: u64) div 2 ^ 32 < 4294967296"
  using unat_u64_bound [of i] by simp

text \<open>One fold with a small constant does not overflow.\<close>

lemma unat_fold:
  fixes i c :: u64
  assumes c: "unat c < 4294967295"
  shows "unat ((i AND (ROCRAND_MRG32K3A_POW32 - 1)) + drop_bit 32 i * c)
           = unat i mod 2 ^ 32 + unat i div 2 ^ 32 * unat c"
proof -
  have h: "unat i div 2 ^ 32 < 4294967296" by (rule high32_less)
  have "unat i div 2 ^ 32 * unat c \<le> 4294967295 * 4294967294"
    using h c by (intro mult_mono) simp_all
  then have p: "unat i div 2 ^ 32 * unat c \<le> 18446744060824649730" by simp
  then have m: "unat (drop_bit 32 i * c) = unat i div 2 ^ 32 * unat c"
    using unat_mult_lem [of "drop_bit 32 i" c] by (simp add: unat_high32)
  have l: "unat i mod 2 ^ 32 < 4294967296" by simp
  have "unat (i AND (ROCRAND_MRG32K3A_POW32 - 1)) + unat (drop_bit 32 i * c) < 2 ^ 64"
    using p l by (simp add: unat_low32 m)
  then show ?thesis
    using unat_add_lem [of "i AND (ROCRAND_MRG32K3A_POW32 - 1)" "drop_bit 32 i * c"]
    by (simp add: unat_low32 m)
qed

lemma unat_mod_m1:
  "unat (mod_m1 i) =
     (if 4294967087 \<le> fold32 209 (unat i) then fold32 209 (unat i) - 4294967087
      else fold32 209 (unat i))"
proof -
  have f: "unat ((i AND (ROCRAND_MRG32K3A_POW32 - 1)) + drop_bit 32 i * ROCRAND_MRG32K3A_M1C)
             = fold32 209 (unat i)"
    using unat_fold [of ROCRAND_MRG32K3A_M1C i]
    by (simp add: ROCRAND_MRG32K3A_M1C_def fold32_def)
  show ?thesis
    unfolding mod_m1_def Let_def
    by (simp add: word_le_nat_alt unat_sub f ROCRAND_MRG32K3A_M1_def)
qed

lemma unat_mod_m2:
  "unat (mod_m2 i) =
     (if 4294944443 \<le> fold32 22853 (fold32 22853 (unat i))
      then fold32 22853 (fold32 22853 (unat i)) - 4294944443
      else fold32 22853 (fold32 22853 (unat i)))"
proof -
  have f: "unat ((j AND (ROCRAND_MRG32K3A_POW32 - 1)) + drop_bit 32 j * ROCRAND_MRG32K3A_M2C)
             = fold32 22853 (unat j)" for j
    using unat_fold [of ROCRAND_MRG32K3A_M2C j]
    by (simp add: ROCRAND_MRG32K3A_M2C_def fold32_def)
  show ?thesis
    unfolding mod_m2_def Let_def
    by (simp add: word_le_nat_alt unat_sub f ROCRAND_MRG32K3A_M2_def)
qed


lemma fold32_decomp: "c \<le> 2 ^ 32 \<Longrightarrow> v = v div 2 ^ 32 * (2 ^ 32 - c) + fold32 c v"
proof -
  assume c: "c \<le> 2 ^ 32"
  define q where "q = v div 2 ^ 32"
  define r where "r = v mod 2 ^ 32"
  define m :: nat where "m = 2 ^ 32 - c"
  have mc: "m + c = 2 ^ 32"
    using c by (simp add: m_def)
  have "v = q * 2 ^ 32 + r"
    by (simp add: q_def r_def)
  also have "\<dots> = q * (m + c) + r"
    by (simp only: mc)
  also have "\<dots> = q * m + (r + q * c)"
    by (simp add: distrib_left)
  finally show ?thesis
    by (simp only: fold32_def q_def r_def m_def)
qed

lemma fold32_mod: "c \<le> 2 ^ 32 \<Longrightarrow> fold32 c v mod (2 ^ 32 - c) = v mod (2 ^ 32 - c)"
  by (subst (2) fold32_decomp [of c v]) simp_all

lemma fold32_le: "fold32 c v \<le> 4294967295 + v div 2 ^ 32 * c"
proof -
  have "v mod 2 ^ 32 < (2 ^ 32 :: nat)" by simp
  then show ?thesis by (simp add: fold32_def)
qed

lemma reduce_once:
  fixes f m :: nat
  assumes "f < 2 * m"
  shows "(if m \<le> f then f - m else f) = f mod m"
  using assms by (simp add: le_mod_geq)

lemma mod_m1_exact:
  assumes "unat i < 88000000000000000"
  shows "unat (mod_m1 i) = unat i mod 4294967087"
proof -
  have "unat i \<le> 87999999999999999"
    using assms by simp
  then have "unat i div 2 ^ 32 \<le> 87999999999999999 div 2 ^ 32"
    by (rule div_le_mono)
  then have "unat i div 2 ^ 32 \<le> 20489096"
    by simp
  then have "unat i div 2 ^ 32 * 209 \<le> 20489096 * 209"
    by (rule mult_le_mono1)
  then have "fold32 209 (unat i) < 2 * 4294967087"
    using fold32_le [of 209 "unat i"] by simp
  then have "unat (mod_m1 i) = fold32 209 (unat i) mod 4294967087"
    using reduce_once [of "fold32 209 (unat i)" 4294967087] by (simp add: unat_mod_m1)
  also have "\<dots> = unat i mod 4294967087"
    using fold32_mod [of 209 "unat i"] by simp
  finally show ?thesis .
qed

lemma mod_m2_exact: "unat (mod_m2 i) = unat i mod 4294944443"
proof -
  let ?f = "fold32 22853 (unat i)"
  have "unat i div 2 ^ 32 \<le> 4294967295"
    using high32_less [of i] by simp
  then have "unat i div 2 ^ 32 * 22853 \<le> 4294967295 * 22853"
    by (rule mult_le_mono1)
  then have "?f \<le> 98157182559930"
    using fold32_le [of 22853 "unat i"] by simp
  then have "?f div 2 ^ 32 \<le> 98157182559930 div 2 ^ 32"
    by (rule div_le_mono)
  then have "?f div 2 ^ 32 \<le> 22853"
    by simp
  then have "?f div 2 ^ 32 * 22853 \<le> 22853 * 22853"
    by (rule mult_le_mono1)
  then have "fold32 22853 ?f < 2 * 4294944443"
    using fold32_le [of 22853 ?f] by simp
  then have "unat (mod_m2 i) = fold32 22853 ?f mod 4294944443"
    using reduce_once [of "fold32 22853 ?f" 4294944443] by (simp add: unat_mod_m2)
  also have "\<dots> = ?f mod 4294944443"
    using fold32_mod [of 22853 ?f] by simp
  also have "\<dots> = unat i mod 4294944443"
    using fold32_mod [of 22853 "unat i"] by simp
  finally show ?thesis .
qed


lemma intermediate_exact:
  fixes a b k1 k2 m :: u64
  assumes a: "unat a < 4294967296" and b: "b \<le> m" and m: "unat m < 4294967296"
    and k1: "unat k1 \<le> 1500000" and k2: "unat k2 \<le> 1500000"
  shows "unat (k1 * a + k2 * (m - b)) = unat k1 * unat a + unat k2 * (unat m - unat b)"
    and "unat (k1 * a + k2 * (m - b)) < 88000000000000000"
proof -
  have s: "unat (m - b) = unat m - unat b"
    using b by (rule unat_sub)
  have "unat k1 * unat a \<le> 1500000 * 4294967296"
    using k1 a by (intro mult_mono) simp_all
  then have p1: "unat k1 * unat a \<le> 6442450944000000" by simp
  have "unat k2 * (unat m - unat b) \<le> 1500000 * 4294967296"
    using k2 m by (intro mult_mono) simp_all
  then have p2: "unat k2 * (unat m - unat b) \<le> 6442450944000000" by simp
  have m1: "unat (k1 * a) = unat k1 * unat a"
    using unat_mult_lem [of k1 a] p1 by simp
  have m2: "unat (k2 * (m - b)) = unat k2 * (unat m - unat b)"
    using unat_mult_lem [of k2 "m - b"] p2 by (simp add: s)
  have "unat (k1 * a) + unat (k2 * (m - b)) < 2 ^ 64"
    using p1 p2 by (simp add: m1 m2)
  then have e: "unat (k1 * a + k2 * (m - b)) = unat (k1 * a) + unat (k2 * (m - b))"
    using unat_add_lem [of "k1 * a" "k2 * (m - b)"] by simp
  show "unat (k1 * a + k2 * (m - b)) = unat k1 * unat a + unat k2 * (unat m - unat b)"
    by (simp add: e m1 m2)
  show "unat (k1 * a + k2 * (m - b)) < 88000000000000000"
    using p1 p2 by (simp add: e m1 m2)
qed

lemma word_mod_eqI: "unat (x :: u64) = unat y mod unat m \<Longrightarrow> x = y mod m"
  by (simp add: word_unat_eq_iff unat_mod)

lemma reduction_exact_parts:
  fixes a b :: u64
  assumes "a < ROCRAND_MRG32K3A_M1" and "b < ROCRAND_MRG32K3A_M1"
    and "c < ROCRAND_MRG32K3A_M2" and "d < ROCRAND_MRG32K3A_M2"
  defines "v1 \<equiv> ROCRAND_MRG32K3A_A12 * a + ROCRAND_MRG32K3A_A13N * (ROCRAND_MRG32K3A_M1 - b)"
    and "v2 \<equiv> ROCRAND_MRG32K3A_A21 * c + ROCRAND_MRG32K3A_A23N * (ROCRAND_MRG32K3A_M2 - d)"
  shows "unat v1 = 1403580 * unat a + 810728 * (4294967087 - unat b)"
    and "unat v2 = 527612 * unat c + 1370589 * (4294944443 - unat d)"
    and "mod_m1 v1 = v1 mod ROCRAND_MRG32K3A_M1"
    and "mod_m1 v2 = v2 mod ROCRAND_MRG32K3A_M1"
    and "mod_m2 v1 = v1 mod ROCRAND_MRG32K3A_M2"
    and "mod_m2 v2 = v2 mod ROCRAND_MRG32K3A_M2"
proof -
  have a: "unat a < 4294967296" and c: "unat c < 4294967296"
    using assms(1,3) by (simp_all add: word_less_nat_alt mrg_consts)
  have b: "b \<le> ROCRAND_MRG32K3A_M1" and d: "d \<le> ROCRAND_MRG32K3A_M2"
    using assms(2,4) by simp_all
  have m1: "unat ROCRAND_MRG32K3A_M1 < 4294967296" and m2: "unat ROCRAND_MRG32K3A_M2 < 4294967296"
    by (simp_all add: mrg_consts)
  have k: "unat ROCRAND_MRG32K3A_A12 \<le> 1500000" "unat ROCRAND_MRG32K3A_A13N \<le> 1500000"
    "unat ROCRAND_MRG32K3A_A21 \<le> 1500000" "unat ROCRAND_MRG32K3A_A23N \<le> 1500000"
    by (simp_all add: mrg_consts)
  note i1 = intermediate_exact [OF a b m1 k(1) k(2)]
  note i2 = intermediate_exact [OF c d m2 k(3) k(4)]
  show "unat v1 = 1403580 * unat a + 810728 * (4294967087 - unat b)"
    unfolding v1_def using i1(1) by (simp add: mrg_consts)
  show "unat v2 = 527612 * unat c + 1370589 * (4294944443 - unat d)"
    unfolding v2_def using i2(1) by (simp add: mrg_consts)
  have l1: "unat v1 < 88000000000000000"
    unfolding v1_def using i1(2) by simp
  have l2: "unat v2 < 88000000000000000"
    unfolding v2_def using i2(2) by simp
  show "mod_m1 v1 = v1 mod ROCRAND_MRG32K3A_M1"
    by (rule word_mod_eqI) (simp add: mod_m1_exact [OF l1] ROCRAND_MRG32K3A_M1_def)
  show "mod_m1 v2 = v2 mod ROCRAND_MRG32K3A_M1"
    by (rule word_mod_eqI) (simp add: mod_m1_exact [OF l2] ROCRAND_MRG32K3A_M1_def)
  show "mod_m2 v1 = v1 mod ROCRAND_MRG32K3A_M2"
    by (rule word_mod_eqI) (simp add: mod_m2_exact ROCRAND_MRG32K3A_M2_def)
  show "mod_m2 v2 = v2 mod ROCRAND_MRG32K3A_M2"
    by (rule word_mod_eqI) (simp add: mod_m2_exact ROCRAND_MRG32K3A_M2_def)
qed

text \<open>
  C7. On every intermediate of \<open>next\<close>, that is \<open>A12 * a + A13N * (M1 - b)\<close> with
  \<open>a, b < M1\<close> and \<open>A21 * c + A23N * (M2 - d)\<close> with \<open>c, d < M2\<close>, the 64-bit value is the
  exact integer (nothing wraps), \<open>mod_m1\<close> returns its remainder modulo \<open>M1\<close> and
  \<open>mod_m2\<close> returns its remainder modulo \<open>M2\<close>; each helper is exact on the
  intermediates of both components.
\<close>

theorem mod_helpers_exact:
  fixes a b c d :: u64
  assumes "a < ROCRAND_MRG32K3A_M1" and "b < ROCRAND_MRG32K3A_M1"
    and "c < ROCRAND_MRG32K3A_M2" and "d < ROCRAND_MRG32K3A_M2"
  shows
    "unat (ROCRAND_MRG32K3A_A12 * a + ROCRAND_MRG32K3A_A13N * (ROCRAND_MRG32K3A_M1 - b))
       = 1403580 * unat a + 810728 * (4294967087 - unat b) \<and>
     unat (ROCRAND_MRG32K3A_A21 * c + ROCRAND_MRG32K3A_A23N * (ROCRAND_MRG32K3A_M2 - d))
       = 527612 * unat c + 1370589 * (4294944443 - unat d) \<and>
     mod_m1 (ROCRAND_MRG32K3A_A12 * a + ROCRAND_MRG32K3A_A13N * (ROCRAND_MRG32K3A_M1 - b))
       = (ROCRAND_MRG32K3A_A12 * a + ROCRAND_MRG32K3A_A13N * (ROCRAND_MRG32K3A_M1 - b))
           mod ROCRAND_MRG32K3A_M1 \<and>
     mod_m1 (ROCRAND_MRG32K3A_A21 * c + ROCRAND_MRG32K3A_A23N * (ROCRAND_MRG32K3A_M2 - d))
       = (ROCRAND_MRG32K3A_A21 * c + ROCRAND_MRG32K3A_A23N * (ROCRAND_MRG32K3A_M2 - d))
           mod ROCRAND_MRG32K3A_M1 \<and>
     mod_m2 (ROCRAND_MRG32K3A_A12 * a + ROCRAND_MRG32K3A_A13N * (ROCRAND_MRG32K3A_M1 - b))
       = (ROCRAND_MRG32K3A_A12 * a + ROCRAND_MRG32K3A_A13N * (ROCRAND_MRG32K3A_M1 - b))
           mod ROCRAND_MRG32K3A_M2 \<and>
     mod_m2 (ROCRAND_MRG32K3A_A21 * c + ROCRAND_MRG32K3A_A23N * (ROCRAND_MRG32K3A_M2 - d))
       = (ROCRAND_MRG32K3A_A21 * c + ROCRAND_MRG32K3A_A23N * (ROCRAND_MRG32K3A_M2 - d))
           mod ROCRAND_MRG32K3A_M2"
  using reduction_exact_parts [OF assms] by (intro conjI)

theorem mod_helpers_exact_witness:
  "(10339680 :: u64) < ROCRAND_MRG32K3A_M1 \<and> (38225222 :: u64) < ROCRAND_MRG32K3A_M1 \<and>
   (1135972920 :: u64) < ROCRAND_MRG32K3A_M2 \<and> (601019198 :: u64) < ROCRAND_MRG32K3A_M2 \<and>
   mod_m1 (ROCRAND_MRG32K3A_A12 * 10339680
           + ROCRAND_MRG32K3A_A13N * (ROCRAND_MRG32K3A_M1 - 38225222))
     = (ROCRAND_MRG32K3A_A12 * 10339680
        + ROCRAND_MRG32K3A_A13N * (ROCRAND_MRG32K3A_M1 - 38225222)) mod ROCRAND_MRG32K3A_M1 \<and>
   mod_m2 (ROCRAND_MRG32K3A_A21 * 1135972920
           + ROCRAND_MRG32K3A_A23N * (ROCRAND_MRG32K3A_M2 - 601019198))
     = (ROCRAND_MRG32K3A_A21 * 1135972920
        + ROCRAND_MRG32K3A_A23N * (ROCRAND_MRG32K3A_M2 - 601019198)) mod ROCRAND_MRG32K3A_M2"
proof -
  have h: "(10339680 :: u64) < ROCRAND_MRG32K3A_M1" "(38225222 :: u64) < ROCRAND_MRG32K3A_M1"
    "(1135972920 :: u64) < ROCRAND_MRG32K3A_M2" "(601019198 :: u64) < ROCRAND_MRG32K3A_M2"
    by (simp_all add: mrg_consts)
  from mod_helpers_exact [OF h] h show ?thesis
    by (intro conjI) (elim conjE, assumption)+
qed

subsection \<open>Single-step generation\<close>

lemma list3_ops:
  "[a, b, c] ! 0 = a" "[a, b, c] ! 1 = b" "[a, b, c] ! 2 = c"
  "[a, b, c][0 := x] = [x, b, c]" "[a, b, c][1 := x] = [a, x, c]" "[a, b, c][2 := x] = [a, b, x]"
  by (simp_all add: numeral_2_eq_2)

lemma length3E:
  assumes "length xs = 3"
  obtains a b c where "xs = [a, b, c]"
  using assms by (auto simp: numeral_3_eq_3 length_Suc_conv)

lemma next_explicit:
  assumes "g1 s = [a0, a1, a2]" and "g2 s = [b0, b1, b2]"
  shows "next s =
     (let p1 = mod_m1 (ROCRAND_MRG32K3A_A12 * a1
                       + ROCRAND_MRG32K3A_A13N * (ROCRAND_MRG32K3A_M1 - a0));
          p2 = mod_m2 (ROCRAND_MRG32K3A_A21 * b2
                       + ROCRAND_MRG32K3A_A23N * (ROCRAND_MRG32K3A_M2 - b0))
      in (if p1 \<le> p2 then p1 - p2 + ROCRAND_MRG32K3A_M1 else p1 - p2,
          s\<lparr>g1 := [a1, a2, p1], g2 := [b1, b2, p2]\<rparr>))"
  by (simp add: next_def Let_def assms list3_ops)

lemma unat_M1: "unat ROCRAND_MRG32K3A_M1 = 4294967087"
  by (simp add: ROCRAND_MRG32K3A_M1_def)

lemma unat_M2: "unat ROCRAND_MRG32K3A_M2 = 4294944443"
  by (simp add: ROCRAND_MRG32K3A_M2_def)

lemma next_new_words:
  assumes "a0 < ROCRAND_MRG32K3A_M1" and "a1 < ROCRAND_MRG32K3A_M1"
    and "b0 < ROCRAND_MRG32K3A_M2" and "b2 < ROCRAND_MRG32K3A_M2"
  shows "unat (mod_m1 (ROCRAND_MRG32K3A_A12 * a1
                       + ROCRAND_MRG32K3A_A13N * (ROCRAND_MRG32K3A_M1 - a0))) < 4294967087"
    and "unat (mod_m2 (ROCRAND_MRG32K3A_A21 * b2
                       + ROCRAND_MRG32K3A_A23N * (ROCRAND_MRG32K3A_M2 - b0))) < 4294944443"
proof -
  let ?v1 = "ROCRAND_MRG32K3A_A12 * a1 + ROCRAND_MRG32K3A_A13N * (ROCRAND_MRG32K3A_M1 - a0)"
  have "mod_m1 ?v1 = ?v1 mod ROCRAND_MRG32K3A_M1"
    by (rule reduction_exact_parts(3) [OF assms(2) assms(1) assms(4) assms(3)])
  then have "unat (mod_m1 ?v1) = unat ?v1 mod 4294967087"
    by (simp only: unat_mod unat_M1)
  then show "unat (mod_m1 ?v1) < 4294967087"
    by simp
  show "unat (mod_m2 (ROCRAND_MRG32K3A_A21 * b2
                       + ROCRAND_MRG32K3A_A23N * (ROCRAND_MRG32K3A_M2 - b0))) < 4294944443"
    by (simp add: mod_m2_exact)
qed

lemma combine_range:
  fixes p1 p2 :: u64
  assumes p1: "unat p1 < 4294967087" and p2: "unat p2 < 4294944443"
  defines "out \<equiv> (if p1 \<le> p2 then p1 - p2 + ROCRAND_MRG32K3A_M1 else p1 - p2)"
  shows "0 < unat out \<and> unat out \<le> 4294967087"
proof (cases "p1 \<le> p2")
  case True
  have d: "unat (p2 - p1) = unat p2 - unat p1"
    using True by (rule unat_sub)
  have "p2 - p1 \<le> ROCRAND_MRG32K3A_M1"
    using p2 by (simp add: word_le_nat_alt d ROCRAND_MRG32K3A_M1_def)
  then have "unat (ROCRAND_MRG32K3A_M1 - (p2 - p1)) = 4294967087 - (unat p2 - unat p1)"
    by (simp add: unat_sub d ROCRAND_MRG32K3A_M1_def)
  moreover have "out = ROCRAND_MRG32K3A_M1 - (p2 - p1)"
    using True by (simp add: out_def)
  ultimately show ?thesis
    using p2 by simp
next
  case False
  then have "p2 \<le> p1" and "unat p2 < unat p1"
    by (simp_all add: word_le_nat_alt not_le)
  moreover have "out = p1 - p2"
    using False by (simp add: out_def)
  ultimately show ?thesis
    using p1 by (simp add: unat_sub)
qed

lemma state_in_boundsD:
  assumes "state_in_bounds s"
  obtains a0 a1 a2 b0 b1 b2 where "g1 s = [a0, a1, a2]" and "g2 s = [b0, b1, b2]"
    and "a0 < ROCRAND_MRG32K3A_M1" and "a1 < ROCRAND_MRG32K3A_M1" and "a2 < ROCRAND_MRG32K3A_M1"
    and "b0 < ROCRAND_MRG32K3A_M2" and "b1 < ROCRAND_MRG32K3A_M2" and "b2 < ROCRAND_MRG32K3A_M2"
proof -
  from assms obtain a0 a1 a2 where a: "g1 s = [a0, a1, a2]"
    unfolding state_in_bounds_def by (auto elim: length3E)
  from assms obtain b0 b1 b2 where b: "g2 s = [b0, b1, b2]"
    unfolding state_in_bounds_def by (auto elim: length3E)
  from assms a b show ?thesis
    by (intro that [of a0 a1 a2 b0 b1 b2]) (simp_all add: state_in_bounds_def)
qed

text \<open>
  C2. From every state that satisfies the bounds invariant, the value returned by
  \<open>next\<close> is never 0 and never above \<open>M1\<close>.
\<close>

theorem next_output_range:
  assumes "state_in_bounds s"
  shows "0 < fst (next s) \<and> fst (next s) \<le> ROCRAND_MRG32K3A_M1"
proof -
  from assms obtain a0 a1 a2 b0 b1 b2 where g: "g1 s = [a0, a1, a2]" "g2 s = [b0, b1, b2]"
    and a: "a0 < ROCRAND_MRG32K3A_M1" "a1 < ROCRAND_MRG32K3A_M1"
    and b: "b0 < ROCRAND_MRG32K3A_M2" "b2 < ROCRAND_MRG32K3A_M2"
    by (rule state_in_boundsD)
  define p1 where "p1 = mod_m1 (ROCRAND_MRG32K3A_A12 * a1
                       + ROCRAND_MRG32K3A_A13N * (ROCRAND_MRG32K3A_M1 - a0))"
  define p2 where "p2 = mod_m2 (ROCRAND_MRG32K3A_A21 * b2
                       + ROCRAND_MRG32K3A_A23N * (ROCRAND_MRG32K3A_M2 - b0))"
  have w: "unat p1 < 4294967087" "unat p2 < 4294944443"
    unfolding p1_def p2_def by (rule next_new_words [OF a b])+
  have out: "fst (next s) = (if p1 \<le> p2 then p1 - p2 + ROCRAND_MRG32K3A_M1 else p1 - p2)"
    by (simp add: next_explicit [OF g] Let_def p1_def p2_def)
  have "0 < unat (fst (next s)) \<and> unat (fst (next s)) \<le> 4294967087"
    unfolding out by (rule combine_range [OF w])
  then show ?thesis
    by (simp add: word_le_nat_alt word_less_nat_alt unat_M1)
qed

text \<open>\<open>next\<close> keeps the bounds invariant.\<close>

lemma next_preserves_bounds:
  assumes "state_in_bounds s"
  shows "state_in_bounds (snd (next s))"
proof -
  from assms obtain a0 a1 a2 b0 b1 b2 where g: "g1 s = [a0, a1, a2]" "g2 s = [b0, b1, b2]"
    and a: "a0 < ROCRAND_MRG32K3A_M1" "a1 < ROCRAND_MRG32K3A_M1" "a2 < ROCRAND_MRG32K3A_M1"
    and b: "b0 < ROCRAND_MRG32K3A_M2" "b1 < ROCRAND_MRG32K3A_M2" "b2 < ROCRAND_MRG32K3A_M2"
    by (rule state_in_boundsD)
  define p1 where "p1 = mod_m1 (ROCRAND_MRG32K3A_A12 * a1
                       + ROCRAND_MRG32K3A_A13N * (ROCRAND_MRG32K3A_M1 - a0))"
  define p2 where "p2 = mod_m2 (ROCRAND_MRG32K3A_A21 * b2
                       + ROCRAND_MRG32K3A_A23N * (ROCRAND_MRG32K3A_M2 - b0))"
  have "unat p1 < 4294967087" "unat p2 < 4294944443"
    unfolding p1_def p2_def by (rule next_new_words [OF a(1) a(2) b(1) b(3)])+
  then have w: "p1 < ROCRAND_MRG32K3A_M1" "p2 < ROCRAND_MRG32K3A_M2"
    by (simp_all add: word_less_nat_alt unat_M1 unat_M2)
  have "snd (next s) = s\<lparr>g1 := [a1, a2, p1], g2 := [b1, b2, p2]\<rparr>"
    by (simp add: next_explicit [OF g] Let_def p1_def p2_def)
  then show ?thesis
    using a b w by (simp add: state_in_bounds_def)
qed


theorem next_output_range_witness:
  "state_in_bounds (raw_state\<lparr>g1 := [38225222, 10339680, 38225222],
                                g2 := [1135972920, 601019198, 1135972920]\<rparr>) \<and>
   0 < fst (next (raw_state\<lparr>g1 := [38225222, 10339680, 38225222],
                              g2 := [1135972920, 601019198, 1135972920]\<rparr>)) \<and>
   fst (next (raw_state\<lparr>g1 := [38225222, 10339680, 38225222],
                          g2 := [1135972920, 601019198, 1135972920]\<rparr>))
     \<le> ROCRAND_MRG32K3A_M1"
proof -
  have h: "state_in_bounds (raw_state\<lparr>g1 := [38225222, 10339680, 38225222],
                                        g2 := [1135972920, 601019198, 1135972920]\<rparr>)"
    by (simp add: state_in_bounds_def raw_state_def mrg_consts)
  from next_output_range [OF h] h show ?thesis
    by (intro conjI) (elim conjE, assumption)+
qed

subsection \<open>One step of the jump loop against \<open>next\<close>\<close>

lemma jump_loop_one:
  "jump_loop B1 B2 1 s =
     s\<lparr>g1 := mod_mat_vec B1 (g1 s) ROCRAND_MRG32K3A_M1,
       g2 := mod_mat_vec B2 (g2 s) ROCRAND_MRG32K3A_M2\<rparr>"
  by (subst jump_loop.simps, simp, subst jump_loop.simps, simp)

text \<open>
  \<open>mod_mat_vec\<close> reads the matrix entry of row \<open>i\<close> and column \<open>j\<close> at \<open>A[i + 3 * j]\<close>: the
  first result word uses the entries 0, 3 and 6 of the array.
\<close>

lemma mod_mat_vec_explicit:
  "mod_mat_vec A [a, b, c] m =
     [(A ! 6 * c + (A ! 3 * b + (A ! 0 * a) mod m) mod m) mod m,
      (A ! 7 * c + (A ! 4 * b + (A ! 1 * a) mod m) mod m) mod m,
      (A ! 8 * c + (A ! 5 * b + (A ! 2 * a) mod m) mod m) mod m]"
  by (simp add: mod_mat_vec_def eval_nat_numeral)

lemma word_mod_mod_same: "(x :: u64) mod m mod m = x mod m"
  by (simp add: word_unat_eq_iff unat_mod)

lemma seed_default_state:
  "seed 0x12345 0 0 raw_state =
     raw_state\<lparr>g1 := [38225222, 10339680, 38225222],
                g2 := [1135972920, 601019198, 1135972920]\<rparr>"
  unfolding seed_def restart_def discard_impl_def discard_state_def discard_subsequence_impl_def
    jump_loop_zero
  by code_simp

text \<open>
  What \<open>discard(1)\<close> does to the two triples. \<open>next\<close> shifts them instead to
  \<open>[a1, a2, (A12 * a1 + A13N * (M1 - a0)) mod M1]\<close> and
  \<open>[b1, b2, (A21 * b2 + A23N * (M2 - b0)) mod M2]\<close> (lemma \<open>next_explicit\<close>).
\<close>

lemma discard_one_explicit:
  assumes "g1 s = [a0, a1, a2]" and "g2 s = [b0, b1, b2]"
  shows "discard 1 s =
     s\<lparr>g1 := [(ROCRAND_MRG32K3A_A13 * a2) mod ROCRAND_MRG32K3A_M1,
               (ROCRAND_MRG32K3A_A12 * a2 + a0 mod ROCRAND_MRG32K3A_M1) mod ROCRAND_MRG32K3A_M1,
               a1 mod ROCRAND_MRG32K3A_M1],
       g2 := [(ROCRAND_MRG32K3A_A23 * b2) mod ROCRAND_MRG32K3A_M2,
              b0 mod ROCRAND_MRG32K3A_M2,
              (ROCRAND_MRG32K3A_A21 * b2 + b1 mod ROCRAND_MRG32K3A_M2) mod ROCRAND_MRG32K3A_M2]\<rparr>"
  by (simp add: discard_def discard_impl_def discard_state_def jump_loop_one assms
        mod_mat_vec_explicit A1_def A2_def word_mod_mod_same)

text \<open>
  C1. Jump-ahead against naive iteration, at the state seeded with the default seed and
  the count 1: one call of \<open>next\<close> and \<open>discard(1)\<close> lead to different states, and the
  outputs that follow differ (3925078897 after \<open>next\<close>, 4287906035 after \<open>discard(1)\<close>).
\<close>

theorem discard_one_is_not_next:
  "snd (next (seed 0x12345 0 0 raw_state)) =
     raw_state\<lparr>g1 := [10339680, 38225222, 2098985603],
                g2 := [601019198, 1135972920, 1768828440]\<rparr> \<and>
   discard 1 (seed 0x12345 0 0 raw_state) =
     raw_state\<lparr>g1 := [2224718176, 3761436265, 10339680],
                g2 := [4026637607, 1135972920, 2638154474]\<rparr> \<and>
   fst (next (snd (next (seed 0x12345 0 0 raw_state)))) = 3925078897 \<and>
   fst (next (discard 1 (seed 0x12345 0 0 raw_state))) = 4287906035"
  unfolding seed_default_state discard_def discard_impl_def discard_state_def jump_loop_one
  by code_simp

subsection \<open>Seeding and the bounds invariant\<close>

text \<open>
  Every word that \<open>mod_mat_vec\<close> writes is a remainder modulo \<open>m\<close>, so the jump loop, the
  three discards and \<open>restart\<close> keep the bounds invariant.
\<close>

lemma mod_mat_vec_in_bounds:
  assumes "length s = 3" and "0 < m"
  shows "length (mod_mat_vec A s m) = 3 \<and> list_all (\<lambda>v. v < m) (mod_mat_vec A s m)"
proof -
  from assms(1) obtain a b c where s: "s = [a, b, c]"
    by (rule length3E)
  have "x mod m < m" for x
    using assms(2) by (rule word_mod_less_divisor)
  then show ?thesis
    by (simp add: s mod_mat_vec_explicit)
qed

lemma jump_loop_preserves_bounds:
  "state_in_bounds s \<Longrightarrow> state_in_bounds (jump_loop B1 B2 e s)"
proof (induction B1 B2 e s rule: jump_loop.induct)
  case (1 B1 B2 e s)
  have m: "0 < ROCRAND_MRG32K3A_M1" "0 < ROCRAND_MRG32K3A_M2"
    by (simp_all add: mrg_consts)
  have step: "state_in_bounds
      (s\<lparr>g1 := mod_mat_vec B1 (g1 s) ROCRAND_MRG32K3A_M1,
         g2 := mod_mat_vec B2 (g2 s) ROCRAND_MRG32K3A_M2\<rparr>)"
    using "1.prems" mod_mat_vec_in_bounds [of "g1 s" ROCRAND_MRG32K3A_M1 B1, OF _ m(1)]
      mod_mat_vec_in_bounds [of "g2 s" ROCRAND_MRG32K3A_M2 B2, OF _ m(2)]
    by (simp add: state_in_bounds_def)
  show ?case
  proof (cases "e > 0")
    case True
    with "1.IH" "1.prems" step show ?thesis
      by (subst jump_loop.simps) simp
  next
    case False
    with "1.prems" show ?thesis
      by (simp add: jump_loop.simps)
  qed
qed

lemma jumps_preserve_bounds:
  assumes "state_in_bounds s"
  shows "state_in_bounds (discard n s)" and "state_in_bounds (discard_subsequence n s)"
    and "state_in_bounds (discard_sequence n s)" and "state_in_bounds (restart n k s)"
proof -
  have "state_in_bounds (s\<lparr>boxmuller_float_state := 0, boxmuller_double_state := 0\<rparr>)"
    using assms by (simp add: state_in_bounds_def)
  then show "state_in_bounds (restart n k s)"
    by (simp add: restart_def discard_impl_def discard_state_def discard_subsequence_impl_def
          jump_loop_preserves_bounds)
qed (simp_all add: assms discard_def discard_impl_def discard_state_def discard_subsequence_def
        discard_subsequence_impl_def discard_sequence_def discard_sequence_impl_def
        jump_loop_preserves_bounds)

text \<open>
  C3. The state-bounds invariant after seeding, at the seed \<open>0xFEDCBA9876543210\<close> with
  subsequence 0 and offset 0: \<open>g1[1]\<close> is 5259909760, which is not below \<open>M1\<close>, so the
  seeded state is outside the invariant, and the second output of \<open>next\<close> from it is
  894201739690, above \<open>M1\<close>.
\<close>

theorem seed_leaves_bounds:
  "g1 (seed 0xFEDCBA9876543210 0 0 raw_state) = [264362659, 5259909760, 264362659] \<and>
   \<not> state_in_bounds (seed 0xFEDCBA9876543210 0 0 raw_state) \<and>
   fst (next (snd (next (seed 0xFEDCBA9876543210 0 0 raw_state)))) = 894201739690 \<and>
   \<not> 894201739690 \<le> ROCRAND_MRG32K3A_M1"
  unfolding seed_def restart_def discard_impl_def discard_state_def discard_subsequence_impl_def
    jump_loop_zero
  by code_simp

text \<open>
  C10. The multiply-reduce helpers against the exact product: \<open>mod_mul_m1(2, 2^63)\<close> and
  \<open>mod_mul_m2(2, 2^63)\<close> return 0 where the exact product \<open>2^64\<close> has the remainders
  43681 and 522259609, and \<open>mod_mul_m1(0x54761032, 0xFEDCBA9876543210)\<close> (the call that
  seeds \<open>g1[1]\<close> for that seed) returns 5259909760, not the remainder 1829000442.
\<close>

theorem mod_mul_not_exact:
  "mod_mul_m1 2 0x8000000000000000 = 0 \<and>
   (unat (2 :: u32) * unat (0x8000000000000000 :: u64)) mod 4294967087 = 43681 \<and>
   mod_mul_m2 2 0x8000000000000000 = 0 \<and>
   (unat (2 :: u32) * unat (0x8000000000000000 :: u64)) mod 4294944443 = 522259609 \<and>
   mod_mul_m1 0x54761032 0xFEDCBA9876543210 = 5259909760 \<and>
   (unat (0x54761032 :: u32) * unat (0xFEDCBA9876543210 :: u64)) mod 4294967087 = 1829000442"
proof -
  have "mod_mul_m1 2 0x8000000000000000 = 0" by code_simp
  moreover have "mod_mul_m2 2 0x8000000000000000 = 0" by code_simp
  moreover have "mod_mul_m1 0x54761032 0xFEDCBA9876543210 = 5259909760" by code_simp
  ultimately show ?thesis by simp
qed

subsection \<open>The derivation of the seeded words\<close>

lemma ucast_down_up_down: "(ucast (ucast (w :: u32) :: u64) :: u32) = w"
  by (simp add: ucast_up_ucast_id is_up)

lemma seed_xy_simple:
  "seed_xy seed_value =
     [ucast seed_value XOR 0x55555555, ucast (drop_bit 32 seed_value) XOR 0xAAAAAAAA]"
  by (simp add: seed_xy_def unsigned_xor_eq ucast_down_up_down)


text \<open>
  C9, as amended. For every non-zero seed, \<open>seed\<close> derives two 32-bit values: \<open>x\<close>, the
  low half of the seed XOR \<open>0x55555555\<close>, and \<open>y\<close>, the high half XOR \<open>0xAAAAAAAA\<close>.
  Before the trailing \<open>restart\<close> the six words are
  \<open>g1 = [mod_mul_m1(x, seed), mod_mul_m1(y, seed), mod_mul_m1(x, seed)]\<close> and
  \<open>g2 = [mod_mul_m2(y, seed), mod_mul_m2(x, seed), mod_mul_m2(y, seed)]\<close>.
\<close>

theorem seed_derivation:
  assumes "seed_value \<noteq> 0" and "length (g1 s) = 3" and "length (g2 s) = 3"
  shows
    "seed_xy seed_value =
       [ucast seed_value XOR 0x55555555, ucast (drop_bit 32 seed_value) XOR 0xAAAAAAAA] \<and>
     g1 (seed_words seed_value s) =
       [mod_mul_m1 (ucast seed_value XOR 0x55555555) seed_value,
        mod_mul_m1 (ucast (drop_bit 32 seed_value) XOR 0xAAAAAAAA) seed_value,
        mod_mul_m1 (ucast seed_value XOR 0x55555555) seed_value] \<and>
     g2 (seed_words seed_value s) =
       [mod_mul_m2 (ucast (drop_bit 32 seed_value) XOR 0xAAAAAAAA) seed_value,
        mod_mul_m2 (ucast seed_value XOR 0x55555555) seed_value,
        mod_mul_m2 (ucast (drop_bit 32 seed_value) XOR 0xAAAAAAAA) seed_value] \<and>
     seed seed_value subsequence offset s =
       restart subsequence offset (seed_words seed_value s)"
proof -
  from assms(2) obtain a0 a1 a2 where a: "g1 s = [a0, a1, a2]"
    by (rule length3E)
  from assms(3) obtain b0 b1 b2 where b: "g2 s = [b0, b1, b2]"
    by (rule length3E)
  show ?thesis
    using assms(1) by (simp add: seed_def seed_words_def seed_xy_simple a b list3_ops Let_def)
qed

theorem seed_derivation_witness:
  "(0x12345 :: u64) \<noteq> 0 \<and> length (g1 raw_state) = 3 \<and> length (g2 raw_state) = 3 \<and>
   g1 (seed_words 0x12345 raw_state) =
       [mod_mul_m1 (ucast (0x12345 :: u64) XOR 0x55555555) 0x12345,
        mod_mul_m1 (ucast (drop_bit 32 (0x12345 :: u64)) XOR 0xAAAAAAAA) 0x12345,
        mod_mul_m1 (ucast (0x12345 :: u64) XOR 0x55555555) 0x12345] \<and>
   g2 (seed_words 0x12345 raw_state) =
       [mod_mul_m2 (ucast (drop_bit 32 (0x12345 :: u64)) XOR 0xAAAAAAAA) 0x12345,
        mod_mul_m2 (ucast (0x12345 :: u64) XOR 0x55555555) 0x12345,
        mod_mul_m2 (ucast (drop_bit 32 (0x12345 :: u64)) XOR 0xAAAAAAAA) 0x12345]"
proof -
  have h: "(0x12345 :: u64) \<noteq> 0" "length (g1 raw_state) = 3" "length (g2 raw_state) = 3"
    by (simp_all add: raw_state_def)
  from seed_derivation [OF h, of 0 0] h show ?thesis
    by (intro conjI) (elim conjE, assumption)+
qed

text \<open>
  C9 as stated speaks of four derived values. For the seed \<open>0x12345\<close> the derived values
  are the two words \<open>0x55547610\<close> and \<open>0xAAAAAAAA\<close>, not four.
\<close>

theorem seed_derives_two_values:
  "seed_xy 0x12345 = [0x55547610, 0xAAAAAAAA] \<and> length (seed_xy 0x12345) \<noteq> 4"
  by (simp add: seed_xy_simple)

subsection \<open>The subsequence table\<close>

lemma mod_mat_sq_iter_add:
  "mod_mat_sq_iter (a + b) A m = mod_mat_sq_iter b (mod_mat_sq_iter a A m) m"
  by (induction a arbitrary: A) simp_all

lemma mod_mat_sq_iter_funpow:
  "mod_mat_sq_iter n A m = ((\<lambda>A. mod_mat_sq A m) ^^ n) A"
proof (induction n arbitrary: A)
  case 0
  show ?case by simp
next
  case (Suc n)
  show ?case
    using funpow_swap1 [of "\<lambda>A. mod_mat_sq A m" n A] by (simp add: Suc.IH)
qed

lemma unat_pow2: "n < 64 \<Longrightarrow> unat ((2 :: u64) ^ n) = 2 ^ n"
proof -
  assume n: "n < 64"
  have "(2 :: nat) ^ n < 2 ^ 64"
    using n by (rule power_strict_increasing) simp
  moreover have "(2 :: u64) ^ n = of_nat (2 ^ n)"
    by simp
  ultimately show ?thesis
    by (simp only: unat_of_nat) simp
qed

lemma pow2_word_facts:
  assumes "Suc k < 64"
  shows "0 < (2 :: u64) ^ Suc k" and "(2 :: u64) ^ Suc k mod 2 \<noteq> 1"
    and "(2 :: u64) ^ Suc k div 2 = 2 ^ k"
proof -
  have u: "unat ((2 :: u64) ^ Suc k) = 2 ^ Suc k" "unat ((2 :: u64) ^ k) = 2 ^ k"
    using assms by (simp_all add: unat_pow2 del: power_Suc)
  show "0 < (2 :: u64) ^ Suc k"
    by (simp add: word_less_nat_alt u del: power_Suc)
  show "(2 :: u64) ^ Suc k mod 2 \<noteq> 1"
    by (simp add: word_unat_eq_iff unat_mod u del: power_Suc)
  have "(2 :: nat) ^ Suc k div 2 = 2 ^ k"
    by simp
  then show "(2 :: u64) ^ Suc k div 2 = 2 ^ k"
    by (simp add: word_unat_eq_iff unat_div u del: power_Suc)
qed

text \<open>
  A jump by \<open>2^k\<close> squares the matrices \<open>k\<close> times and then applies them once, so
  \<open>discard(2^k)\<close> multiplies by the base matrices squared \<open>k\<close> times.
\<close>

lemma jump_loop_pow2:
  assumes "k < 64"
  shows "jump_loop B1 B2 (2 ^ k) s =
     s\<lparr>g1 := mod_mat_vec (mod_mat_sq_iter k B1 ROCRAND_MRG32K3A_M1) (g1 s) ROCRAND_MRG32K3A_M1,
       g2 := mod_mat_vec (mod_mat_sq_iter k B2 ROCRAND_MRG32K3A_M2) (g2 s) ROCRAND_MRG32K3A_M2\<rparr>"
  using assms
proof (induction k arbitrary: B1 B2)
  case 0
  show ?case by (simp add: jump_loop_one)
next
  case (Suc k)
  then have k: "k < 64" and sk: "Suc k < 64" by simp_all
  note f = pow2_word_facts [OF sk]
  have "jump_loop B1 B2 (2 ^ Suc k) s =
          jump_loop (mod_mat_sq B1 ROCRAND_MRG32K3A_M1) (mod_mat_sq B2 ROCRAND_MRG32K3A_M2) (2 ^ k) s"
    by (subst jump_loop.simps) (simp only: f if_True if_False)
  then show ?case
    by (simp add: Suc.IH [OF k] del: power_Suc)
qed

text \<open>
  The base matrix of component 1 squared again and again by \<open>mod_mat_sq\<close>, in seven
  stretches.
\<close>

lemma A1_sq_0_11:
  "mod_mat_sq_iter 11 A1 ROCRAND_MRG32K3A_M1 =
     [3630027893, 2130448350, 292773857,
      1392525159, 1299285967, 2130448350,
      2589171163, 1217405758, 1299285967]"
  by code_simp

lemma A1_sq_11_22:
  "mod_mat_sq_iter 11 [3630027893, 2130448350, 292773857,
                         1392525159, 1299285967, 2130448350,
                         2589171163, 1217405758, 1299285967] ROCRAND_MRG32K3A_M1 =
     [2571072593, 3039669025, 1591031831,
      526054481, 661344445, 3039669025,
      4246010312, 735391270, 661344445]"
  by code_simp

lemma A1_sq_22_33:
  "mod_mat_sq_iter 11 [2571072593, 3039669025, 1591031831,
                         526054481, 661344445, 3039669025,
                         4246010312, 735391270, 661344445] ROCRAND_MRG32K3A_M1 =
     [2254459023, 2384691454, 1730098031,
      2844861718, 1807491073, 2384691454,
      351423668, 1570264155, 1807491073]"
  by code_simp

lemma A1_sq_33_44:
  "mod_mat_sq_iter 11 [2254459023, 2384691454, 1730098031,
                         2844861718, 1807491073, 2384691454,
                         351423668, 1570264155, 1807491073] ROCRAND_MRG32K3A_M1 =
     [1157293598, 584852249, 2272893205,
      1631801979, 3013855247, 584852249,
      3977310441, 82049263, 3013855247]"
  by code_simp

lemma A1_sq_44_55:
  "mod_mat_sq_iter 11 [1157293598, 584852249, 2272893205,
                         1631801979, 3013855247, 584852249,
                         3977310441, 82049263, 3013855247] ROCRAND_MRG32K3A_M1 =
     [925786347, 2109676036, 1879981040,
      1701566570, 1489702270, 2109676036,
      2719807628, 158549605, 1489702270]"
  by code_simp

lemma A1_sq_55_67:
  "mod_mat_sq_iter 12 [925786347, 2109676036, 1879981040,
                         1701566570, 1489702270, 2109676036,
                         2719807628, 158549605, 1489702270] ROCRAND_MRG32K3A_M1 =
     [3894793123, 921712152, 596236860,
      4038673596, 4279784147, 921712152,
      1999065039, 859801225, 4279784147]"
  by code_simp

lemma A1_sq_67_76:
  "mod_mat_sq_iter 9 [3894793123, 921712152, 596236860,
                         4038673596, 4279784147, 921712152,
                         1999065039, 859801225, 4279784147] ROCRAND_MRG32K3A_M1 =
     [82758667, 1871391091, 4127413238,
      3672831523, 69195019, 1871391091,
      3672091415, 3528743235, 69195019]"
  by code_simp

lemma A1_sq_67:
  "mod_mat_sq_iter 67 A1 ROCRAND_MRG32K3A_M1 =
     [3894793123, 921712152, 596236860,
      4038673596, 4279784147, 921712152,
      1999065039, 859801225, 4279784147]"
proof -
  have "mod_mat_sq_iter (11 + 11 + 11 + 11 + 11 + 12) A1 ROCRAND_MRG32K3A_M1 =
     [3894793123, 921712152, 596236860,
      4038673596, 4279784147, 921712152,
      1999065039, 859801225, 4279784147]"
    by (simp only: mod_mat_sq_iter_add A1_sq_0_11 A1_sq_11_22 A1_sq_22_33 A1_sq_33_44 A1_sq_44_55 A1_sq_55_67)
  then show ?thesis by simp
qed

lemma A1_sq_76: "mod_mat_sq_iter 76 A1 ROCRAND_MRG32K3A_M1 = A1p67"
proof -
  have "mod_mat_sq_iter (67 + 9) A1 ROCRAND_MRG32K3A_M1 =
     [82758667, 1871391091, 4127413238,
      3672831523, 69195019, 1871391091,
      3672091415, 3528743235, 69195019]"
    by (simp only: mod_mat_sq_iter_add A1_sq_67 A1_sq_67_76)
  then show ?thesis by (simp add: A1p67_def)
qed

text \<open>
  C8. Subsequence spacing, on component 1: the base matrix \<open>A1\<close> of \<open>discard\<close> squared 67
  times by the code's own \<open>mod_mat_sq\<close> (its power \<open>2^67\<close>) is not the table \<open>A1p67\<close> of
  \<open>discard_subsequence\<close>; squared 76 times it is. At the state seeded with the default seed,
  \<open>discard_subsequence(1)\<close> leaves \<open>g1 = [275658273, 4181575301, 2700395586]\<close>, where
  the power \<open>2^67\<close> of the step of \<open>discard\<close> gives \<open>[2541815938, 3953948193, 2756902978]\<close>.
\<close>

theorem subsequence_table_is_power_2_76:
  "((\<lambda>A. mod_mat_sq A ROCRAND_MRG32K3A_M1) ^^ 67) A1 =
     [3894793123, 921712152, 596236860,
      4038673596, 4279784147, 921712152,
      1999065039, 859801225, 4279784147] \<and>
   ((\<lambda>A. mod_mat_sq A ROCRAND_MRG32K3A_M1) ^^ 67) A1 \<noteq> A1p67 \<and>
   ((\<lambda>A. mod_mat_sq A ROCRAND_MRG32K3A_M1) ^^ 76) A1 = A1p67 \<and>
   g1 (discard_subsequence 1 (seed 0x12345 0 0 raw_state)) = [275658273, 4181575301, 2700395586] \<and>
   mod_mat_vec (((\<lambda>A. mod_mat_sq A ROCRAND_MRG32K3A_M1) ^^ 67) A1)
       (g1 (seed 0x12345 0 0 raw_state)) ROCRAND_MRG32K3A_M1 = [2541815938, 3953948193, 2756902978]"
proof -
  have a: "((\<lambda>A. mod_mat_sq A ROCRAND_MRG32K3A_M1) ^^ 67) A1 =
     [3894793123, 921712152, 596236860,
      4038673596, 4279784147, 921712152,
      1999065039, 859801225, 4279784147]"
    using A1_sq_67 by (simp only: mod_mat_sq_iter_funpow)
  have b: "((\<lambda>A. mod_mat_sq A ROCRAND_MRG32K3A_M1) ^^ 76) A1 = A1p67"
    using A1_sq_76 by (simp only: mod_mat_sq_iter_funpow)
  have c: "[3894793123, 921712152, 596236860,
             4038673596, 4279784147, 921712152,
             1999065039, 859801225, 4279784147] \<noteq> A1p67"
    by (simp add: A1p67_def)
  have d: "mod_mat_vec A1p67 [38225222, 10339680, 38225222] ROCRAND_MRG32K3A_M1 = [275658273, 4181575301, 2700395586]"
    by code_simp
  have e: "mod_mat_vec [3894793123, 921712152, 596236860,
                      4038673596, 4279784147, 921712152,
                      1999065039, 859801225, 4279784147]
             [38225222, 10339680, 38225222] ROCRAND_MRG32K3A_M1 = [2541815938, 3953948193, 2756902978]"
    by code_simp
  have f: "g1 (discard_subsequence 1 (seed 0x12345 0 0 raw_state)) = [275658273, 4181575301, 2700395586]"
    by (simp add: discard_subsequence_def discard_subsequence_impl_def jump_loop_one
          seed_default_state d)
  have g: "g1 (seed 0x12345 0 0 raw_state) = [38225222, 10339680, 38225222]"
    by (simp add: seed_default_state)
  show ?thesis
    unfolding a b g using c e f by (intro conjI) simp_all
qed

end
